theory Spec2Isabelle
  imports Complex_Main
begin

section \<open>Values received from the client\<close>

text \<open>
  The service is a FastAPI application over SQLModel (pydantic 2 and SQLAlchemy). The
  request body reaches the validation layer as the Python value that \<open>json.loads\<close>
  produced. A Python \<open>str\<close> is a sequence of code points and \<open>len\<close> counts code points,
  so a string is a list of code points here. A Python \<open>float\<close> is a finite rational, an
  infinity or a NaN (\<open>json.loads\<close> reads \<open>1e400\<close> as infinity). A Python dict is an
  association list with distinct keys.
\<close>

type_synonym pystr = "nat list"

definition u :: "string \<Rightarrow> pystr" where
  "u s = map of_char s"

datatype pyfloat = Finite rat | Infinity | NaN

datatype json =
    JNull
  | JBool bool
  | JInt int
  | JFloat pyfloat
  | JStr pystr
  | JArr "json list"
  | JObj "(pystr \<times> json) list"

text \<open>The body of \<open>POST /tasks/\<close>: a Python dict from field name to value.\<close>

type_synonym payload = "(pystr \<times> json) list"

subsection \<open>Rendering a value in a JSON response\<close>

text \<open>
  A JSON response renders its content with
  \<open>json.dumps(content, ensure_ascii=False, allow_nan=False).encode("utf-8")\<close>. The first
  step raises on an infinite or NaN float, the second on a string or key with a lone
  surrogate (a code point from D800 to DFFF).
\<close>

definition surrogate :: "nat \<Rightarrow> bool" where
  "surrogate c = (55296 \<le> c \<and> c \<le> 57343)"

definition utf8_encodable :: "pystr \<Rightarrow> bool" where
  "utf8_encodable s = list_all (\<lambda>c. \<not> surrogate c) s"

primrec renders :: "json \<Rightarrow> bool" where
  "renders JNull = True"
| "renders (JBool b) = True"
| "renders (JInt i) = True"
| "renders (JFloat f) = (case f of Finite r \<Rightarrow> True | Infinity \<Rightarrow> False | NaN \<Rightarrow> False)"
| "renders (JStr s) = utf8_encodable s"
| "renders (JArr xs) = list_all (\<lambda>b. b) (map renders xs)"
| "renders (JObj kvs) =
     list_all (\<lambda>kb. utf8_encodable (fst kb) \<and> snd kb) (map (map_prod (\<lambda>k. k) renders) kvs)"

section \<open>models.py\<close>

text \<open>
  \<^verbatim>\<open>
  class TaskBase(SQLModel):
      title: str = Field(index=True, max_length=255, nullable=False)
      description: Optional[str] = Field(default=None, sa_column=Text())
      is_completed: bool = Field(default=False)
  class Task(TaskBase, table=True):
      id: Optional[int] = Field(default=None, primary_key=True)
  class TaskCreate(TaskBase): pass
  class TaskRead(TaskBase):
      id: int
  \<close>
  The field \<open>id\<close> is \<open>id_db\<close> in \<open>Task\<close> and \<open>id_out\<close> in \<open>TaskRead\<close>, since \<open>id\<close> is the
  identity function of HOL.
\<close>

record TaskBase =
  title :: pystr
  description :: "pystr option"
  is_completed :: bool

record Task = TaskBase +
  id_db :: "int option"

type_synonym TaskCreate = TaskBase

record TaskRead = TaskBase +
  id_out :: int

definition max_length :: nat where
  "max_length = 255"

subsection \<open>Field validators of pydantic (lax mode, Python input)\<close>

text \<open>
  An error of validation names its type, the location of the field, a message, and
  the input that was rejected: the value of the field, or the whole dict when the
  field is missing.
\<close>

datatype verr =
  Missing | StringType | StringUnicode | StringTooLong | BoolType | BoolParsing | IntType

record ErrorDetails =
  err_type :: string
  loc :: "string list"
  msg :: string
  input :: json

fun verr_type :: "verr \<Rightarrow> string" where
  "verr_type Missing = ''missing''"
| "verr_type StringType = ''string_type''"
| "verr_type StringUnicode = ''string_unicode''"
| "verr_type StringTooLong = ''string_too_long''"
| "verr_type BoolType = ''bool_type''"
| "verr_type BoolParsing = ''bool_parsing''"
| "verr_type IntType = ''int_type''"

fun verr_msg :: "verr \<Rightarrow> string" where
  "verr_msg Missing = ''Field required''"
| "verr_msg StringType = ''Input should be a valid string''"
| "verr_msg StringUnicode =
     ''Input should be a valid string, unable to parse raw data as a unicode string''"
| "verr_msg StringTooLong = ''String should have at most 255 characters''"
| "verr_msg BoolType = ''Input should be a valid boolean''"
| "verr_msg BoolParsing = ''Input should be a valid boolean, unable to interpret input''"
| "verr_msg IntType = ''Input should be a valid integer''"

definition error_at :: "string list \<Rightarrow> json \<Rightarrow> verr \<Rightarrow> ErrorDetails" where
  "error_at l x e = \<lparr>err_type = verr_type e, loc = l, msg = verr_msg e, input = x\<rparr>"

text \<open>
  A \<open>str\<close> field takes a Python \<open>str\<close> and nothing else. A field with a length bound
  reads the string as UTF-8 first, which fails on a lone surrogate, and then counts
  its code points; a field without a bound returns the string as it is. No
  \<open>min_length\<close> is declared, so nothing is asked of the lower end.
\<close>

fun validate_str :: "nat option \<Rightarrow> json \<Rightarrow> verr + pystr" where
  "validate_str bound (JStr s) =
     (case bound of
        None \<Rightarrow> Inr s
      | Some n \<Rightarrow>
          if \<not> utf8_encodable s then Inl StringUnicode
          else if length s > n then Inl StringTooLong
          else Inr s)"
| "validate_str bound _ = Inl StringType"

text \<open>
  A \<open>bool\<close> field in lax mode takes a \<open>bool\<close>, the strings pydantic reads as booleans
  (compared without regard to ASCII case, \<open>0\<close> and \<open>1\<close> exactly), the integers 0 and 1
  and the floats 0.0 and 1.0. Another integer that fits 64 bits, or another integral
  float strictly between \<open>-2^63\<close> and \<open>2^63\<close>, is a parsing error; any other value is a
  type error.
\<close>

definition ascii_lower :: "nat \<Rightarrow> nat" where
  "ascii_lower c = (if 65 \<le> c \<and> c \<le> 90 then c + 32 else c)"

definition eq_ignore_ascii_case :: "pystr \<Rightarrow> string \<Rightarrow> bool" where
  "eq_ignore_ascii_case s lit = (map ascii_lower s = map ascii_lower (u lit))"

definition str_as_bool :: "pystr \<Rightarrow> verr + bool" where
  "str_as_bool s =
     (if s = u ''0'' \<or> eq_ignore_ascii_case s ''f'' \<or> eq_ignore_ascii_case s ''n''
         \<or> eq_ignore_ascii_case s ''no'' \<or> eq_ignore_ascii_case s ''off''
         \<or> eq_ignore_ascii_case s ''false'' then Inr False
      else if s = u ''1'' \<or> eq_ignore_ascii_case s ''t'' \<or> eq_ignore_ascii_case s ''y''
         \<or> eq_ignore_ascii_case s ''on'' \<or> eq_ignore_ascii_case s ''yes''
         \<or> eq_ignore_ascii_case s ''true'' then Inr True
      else Inl BoolParsing)"

definition int_as_bool :: "int \<Rightarrow> verr + bool" where
  "int_as_bool i = (if i = 0 then Inr False else if i = 1 then Inr True else Inl BoolParsing)"

fun validate_bool :: "json \<Rightarrow> verr + bool" where
  "validate_bool (JBool b) = Inr b"
| "validate_bool (JStr s) = str_as_bool s"
| "validate_bool (JInt i) =
     (if - (2 ^ 63) \<le> i \<and> i < 2 ^ 63 then int_as_bool i else Inl BoolType)"
| "validate_bool (JFloat (Finite r)) =
     (if of_int \<lfloor>r\<rfloor> = r \<and> - (2 ^ 63) < r \<and> r < 2 ^ 63 then int_as_bool \<lfloor>r\<rfloor>
      else Inl BoolType)"
| "validate_bool _ = Inl BoolType"

subsection \<open>The fields of \<open>TaskBase\<close>\<close>

definition validate_title :: "json option \<Rightarrow> verr + pystr" where
  "validate_title x =
     (case x of None \<Rightarrow> Inl Missing | Some v \<Rightarrow> validate_str (Some max_length) v)"

definition validate_description :: "json option \<Rightarrow> verr + pystr option" where
  "validate_description x =
     (case x of
        None \<Rightarrow> Inr None
      | Some JNull \<Rightarrow> Inr None
      | Some v \<Rightarrow> map_sum (\<lambda>e. e) Some (validate_str None v))"

definition validate_is_completed :: "json option \<Rightarrow> verr + bool" where
  "validate_is_completed x =
     (case x of None \<Rightarrow> Inr False | Some v \<Rightarrow> validate_bool v)"

definition field_errors :: "string list \<Rightarrow> json \<Rightarrow> verr + 'a \<Rightarrow> ErrorDetails list" where
  "field_errors l x r = (case r of Inl e \<Rightarrow> [error_at l x e] | Inr _ \<Rightarrow> [])"

text \<open>The input an error of a field echoes: its value, or the dict when it is missing.\<close>

definition echo :: "payload \<Rightarrow> pystr \<Rightarrow> json" where
  "echo p k = (case map_of p k of None \<Rightarrow> JObj p | Some v \<Rightarrow> v)"

text \<open>
  Validation of a model from a dict: every declared field is looked up by name and
  validated, in declaration order; the errors of all fields are collected; keys that
  name no field are not read (pydantic's default \<open>extra = ignore\<close>).
\<close>

definition TaskCreate_validate :: "string list \<Rightarrow> payload \<Rightarrow> ErrorDetails list + TaskCreate" where
  "TaskCreate_validate pre p =
     (let t = validate_title (map_of p (u ''title''));
          d = validate_description (map_of p (u ''description''));
          c = validate_is_completed (map_of p (u ''is_completed''))
      in case (t, d, c) of
           (Inr tv, Inr dv, Inr cv) \<Rightarrow>
             Inr \<lparr>title = tv, description = dv, is_completed = cv\<rparr>
         | _ \<Rightarrow>
             Inl (field_errors (pre @ [''title'']) (echo p (u ''title'')) t
                  @ field_errors (pre @ [''description'']) (echo p (u ''description'')) d
                  @ field_errors (pre @ [''is_completed'']) (echo p (u ''is_completed'')) c))"

text \<open>
  \<open>Task.model_validate(task)\<close> reads the three attributes of an already validated
  \<open>TaskCreate\<close>; their types are right by construction, the constraints of \<open>title\<close> are
  checked again, and \<open>id\<close> takes its default \<open>None\<close>.
\<close>

definition Task_model_validate :: "TaskCreate \<Rightarrow> ErrorDetails list + Task" where
  "Task_model_validate t =
     (case validate_str (Some max_length) (JStr (title t)) of
        Inl e \<Rightarrow> Inl [error_at [''title''] (JStr (title t)) e]
      | Inr s \<Rightarrow>
          Inr \<lparr>title = s, description = description t,
               is_completed = is_completed t, id_db = None\<rparr>)"

text \<open>
  The response model \<open>TaskRead\<close> is validated from the attributes of the returned
  \<open>Task\<close>: \<open>id\<close> is required to be an integer, \<open>title\<close> is constrained as before.
\<close>

definition TaskRead_validate :: "Task \<Rightarrow> ErrorDetails list + TaskRead" where
  "TaskRead_validate t =
     (case id_db t of
        None \<Rightarrow> Inl [error_at [''response'', ''id''] JNull IntType]
      | Some i \<Rightarrow>
          (case validate_str (Some max_length) (JStr (title t)) of
             Inl e \<Rightarrow> Inl [error_at [''response'', ''title''] (JStr (title t)) e]
           | Inr s \<Rightarrow>
               Inr \<lparr>title = s, description = description t,
                    is_completed = is_completed t, id_out = i\<rparr>))"

fun TaskRead_validate_list :: "Task list \<Rightarrow> ErrorDetails list + TaskRead list" where
  "TaskRead_validate_list [] = Inr []"
| "TaskRead_validate_list (t # ts) =
     (case TaskRead_validate t of
        Inl e \<Rightarrow> Inl e
      | Inr r \<Rightarrow> (case TaskRead_validate_list ts of Inl e \<Rightarrow> Inl e | Inr rs \<Rightarrow> Inr (r # rs)))"

section \<open>database.py: the session\<close>

text \<open>
  The table \<open>task\<close> holds one row per stored \<open>Task\<close>; the primary key is generated by
  the database, one above the last key it issued. The database is outside the
  program: every statement sent to it either completes or raises an exception with
  some text (the server unreachable, the statement refused, a parameter the driver
  cannot encode). A request is served under a schedule that fixes the outcome of the
  first, second, ... statement it sends; statements beyond the schedule complete.
\<close>

record database =
  rows :: "Task list"
  last_id :: int

definition create_db_and_tables :: database where
  "create_db_and_tables = \<lparr>rows = [], last_id = 0\<rparr>"

datatype outcome = Done | Raises string

definition nth_outcome :: "outcome list \<Rightarrow> nat \<Rightarrow> outcome" where
  "nth_outcome env k = (if k < length env then env ! k else Done)"

text \<open>
  \<open>session.add(db_task); session.commit()\<close> sends the INSERT. On failure nothing is
  stored. On success the row is stored under a fresh key.
\<close>

definition session_commit :: "Task \<Rightarrow> outcome \<Rightarrow> database \<Rightarrow> string + int \<times> database" where
  "session_commit t oc d =
     (case oc of
        Raises e \<Rightarrow> Inl e
      | Done \<Rightarrow>
          (let i = last_id d + 1
           in Inr (i, \<lparr>rows = rows d @ [t\<lparr>id_db := Some i\<rparr>], last_id = i\<rparr>)))"

text \<open>\<open>session.refresh(db_task)\<close> reads the row back by its primary key.\<close>

definition session_refresh :: "int \<Rightarrow> outcome \<Rightarrow> database \<Rightarrow> string + Task" where
  "session_refresh i oc d =
     (case oc of
        Raises e \<Rightarrow> Inl e
      | Done \<Rightarrow>
          (case find (\<lambda>r. id_db r = Some i) (rows d) of
             None \<Rightarrow> Inl ''Could not refresh instance''
           | Some r \<Rightarrow> Inr r))"

text \<open>\<open>session.exec(select(Task)).all()\<close>.\<close>

definition session_exec_select :: "outcome \<Rightarrow> database \<Rightarrow> string + Task list" where
  "session_exec_select oc d = (case oc of Raises e \<Rightarrow> Inl e | Done \<Rightarrow> Inr (rows d))"

section \<open>main.py: the handlers\<close>

datatype detail = Errors "ErrorDetails list" | Message string

datatype HTTPException = HTTPException nat detail

datatype content =
    Dict "(string \<times> string) list"
  | OneTask TaskRead
  | TaskList "TaskRead list"
  | Detail detail
  | PlainText string

record response =
  status_code :: nat
  body :: content

definition health_check :: "(string \<times> string) list" where
  "health_check = [(''status'', ''ok''), (''message'', ''API is running!'')]"

text \<open>
  \<open>create_task\<close> returns the refreshed \<open>Task\<close> or raises an \<open>HTTPException\<close>; the lines it
  prints and the database it leaves are returned with the result. Any exception of
  the session is caught by \<open>except Exception\<close>, printed, and replaced by the fixed
  detail.
\<close>

definition internal_detail :: string where
  "internal_detail = ''Error interno del servidor al procesar la solicitud.''"

definition create_task ::
    "TaskCreate \<Rightarrow> outcome list \<Rightarrow> database \<Rightarrow> (HTTPException + Task) \<times> string list \<times> database" where
  "create_task task env d =
     (case Task_model_validate task of
        Inl errs \<Rightarrow> (Inl (HTTPException 422 (Errors errs)), [], d)
      | Inr db_task \<Rightarrow>
          (case session_commit db_task (nth_outcome env 0) d of
             Inl e \<Rightarrow>
               (Inl (HTTPException 500 (Message internal_detail)),
                [''Error al crear tarea: '' @ e], d)
           | Inr (i, d') \<Rightarrow>
               (case session_refresh i (nth_outcome env 1) d' of
                  Inl e \<Rightarrow>
                    (Inl (HTTPException 500 (Message internal_detail)),
                     [''Error al crear tarea: '' @ e], d')
                | Inr t \<Rightarrow> (Inr t, [], d'))))"

text \<open>\<open>read_tasks\<close> has no handler of its own: an exception of the session leaves it.\<close>

definition read_tasks :: "outcome list \<Rightarrow> database \<Rightarrow> string + Task list" where
  "read_tasks env d = session_exec_select (nth_outcome env 0) d"

text \<open>
  A response built from a detail is a JSON response: it is rendered when it is built.
  An error list carries the rejected inputs, so it renders only if each of them does;
  a message of the program is plain text and always renders. When rendering raises,
  the exception leaves the handler that was building the response.
\<close>

fun detail_renders :: "detail \<Rightarrow> bool" where
  "detail_renders (Errors errs) = list_all (\<lambda>e. renders (input e)) errs"
| "detail_renders (Message m) = True"

definition server_error :: response where
  "server_error = \<lparr>status_code = 500, body = PlainText ''Internal Server Error''\<rparr>"

definition JSONResponse :: "nat \<Rightarrow> detail \<Rightarrow> response" where
  "JSONResponse code det =
     (if detail_renders det then \<lparr>status_code = code, body = Detail det\<rparr> else server_error)"

definition http_exception_handler :: "HTTPException \<Rightarrow> response" where
  "http_exception_handler exc = (case exc of HTTPException code det \<Rightarrow> JSONResponse code det)"

section \<open>The application\<close>

text \<open>
  What the framework does around the handlers: the body of a POST is validated
  against \<open>TaskCreate\<close> before \<open>create_task\<close> runs, and a failure is answered by the
  default handler with a JSON response of status 422 holding the error list, each
  location prefixed with \<open>body\<close>; the value a handler returns is validated against the
  response model; an exception no handler is registered for, or one raised while a
  handler builds its response, is answered by the server with 500 and the text
  \<open>Internal Server Error\<close>. A task in a response comes from a row the database
  returned, that is from text its driver encoded, and is taken to render.
\<close>

datatype request = GET_health | POST_tasks payload | GET_tasks

fun serve :: "request \<Rightarrow> outcome list \<Rightarrow> database \<Rightarrow> response \<times> string list \<times> database" where
  "serve GET_health env d = (\<lparr>status_code = 200, body = Dict health_check\<rparr>, [], d)"
| "serve (POST_tasks p) env d =
     (case TaskCreate_validate [''body''] p of
        Inl errs \<Rightarrow> (JSONResponse 422 (Errors errs), [], d)
      | Inr task \<Rightarrow>
          (case create_task task env d of
             (Inl exc, out, d') \<Rightarrow> (http_exception_handler exc, out, d')
           | (Inr t, out, d') \<Rightarrow>
               (case TaskRead_validate t of
                  Inl _ \<Rightarrow> (server_error, out, d')
                | Inr r \<Rightarrow> (\<lparr>status_code = 201, body = OneTask r\<rparr>, out, d'))))"
| "serve GET_tasks env d =
     (case read_tasks env d of
        Inl e \<Rightarrow> (server_error, [], d)
      | Inr ts \<Rightarrow>
          (case TaskRead_validate_list ts of
             Inl _ \<Rightarrow> (server_error, [], d)
           | Inr rs \<Rightarrow> (\<lparr>status_code = 200, body = TaskList rs\<rparr>, [], d)))"

section \<open>Histories of requests\<close>

text \<open>
  The rows a database can hold under the table's constraints: the primary key is
  present, positive and at most the last key issued, and \<open>title\<close> is text that fits the
  declared length of its column.
\<close>

definition row_ok :: "int \<Rightarrow> Task \<Rightarrow> bool" where
  "row_ok n r =
     ((case id_db r of None \<Rightarrow> False | Some i \<Rightarrow> 0 < i \<and> i \<le> n)
      \<and> utf8_encodable (title r) \<and> length (title r) \<le> max_length)"

definition database_ok :: "database \<Rightarrow> bool" where
  "database_ok d = (0 \<le> last_id d \<and> list_all (row_ok (last_id d)) (rows d))"

text \<open>The identifiers a client sees in a response.\<close>

fun ids_of :: "content \<Rightarrow> int list" where
  "ids_of (OneTask t) = [id_out t]"
| "ids_of (TaskList ts) = map id_out ts"
| "ids_of _ = []"

text \<open>
  A history is a sequence of requests, each with the outcomes of the statements it
  sends; \<open>run\<close> serves them in order and returns the responses and the database left.
\<close>

fun run :: "(request \<times> outcome list) list \<Rightarrow> database \<Rightarrow> response list \<times> database" where
  "run [] d = ([], d)"
| "run ((rq, env) # h) d =
     (case serve rq env d of
        (r, out, d') \<Rightarrow> (case run h d' of (rs, d'') \<Rightarrow> (r # rs, d'')))"

text \<open>The tasks of a listing whose three client fields are those of an input view.\<close>

definition same_fields :: "TaskCreate \<Rightarrow> TaskRead \<Rightarrow> bool" where
  "same_fields v t =
     (title t = title v \<and> description t = description v \<and> is_completed t = is_completed v)"

definition matching :: "TaskCreate \<Rightarrow> TaskRead list \<Rightarrow> TaskRead list" where
  "matching v ts = filter (same_fields v) ts"

definition as_read :: "TaskCreate \<Rightarrow> int \<Rightarrow> TaskRead" where
  "as_read v i = \<lparr>title = title v, description = description v,
                   is_completed = is_completed v, id_out = i\<rparr>"

section \<open>The validation contract in the words of the specification\<close>

text \<open>
  The specification's condition on a payload: \<open>title\<close> is present, a string, non-empty
  and of at most 255 characters; \<open>description\<close>, if present, is a string;
  \<open>is_completed\<close>, if present, is a boolean.
\<close>

definition spec_valid :: "payload \<Rightarrow> bool" where
  "spec_valid p =
     ((case map_of p (u ''title'') of
         Some (JStr s) \<Rightarrow> s \<noteq> [] \<and> length s \<le> 255
       | _ \<Rightarrow> False)
      \<and> (case map_of p (u ''description'') of
            None \<Rightarrow> True
          | Some (JStr s) \<Rightarrow> True
          | Some _ \<Rightarrow> False)
      \<and> (case map_of p (u ''is_completed'') of
            None \<Rightarrow> True
          | Some (JBool b) \<Rightarrow> True
          | Some _ \<Rightarrow> False))"

text \<open>
  The values other than \<open>true\<close> and \<open>false\<close> that a \<open>bool\<close> field takes: the integers
  and floats 0 and 1, the strings \<open>0\<close> and \<open>1\<close>, and the words below in any mix of
  upper and lower case.
\<close>

definition bool_words :: "pystr list" where
  "bool_words = map u [''f'', ''n'', ''no'', ''off'', ''false'',
                       ''t'', ''y'', ''on'', ''yes'', ''true'']"

definition reads_as_bool :: "json \<Rightarrow> bool" where
  "reads_as_bool x =
     (case x of
        JBool b \<Rightarrow> True
      | JInt i \<Rightarrow> i = 0 \<or> i = 1
      | JFloat f \<Rightarrow> f = Finite 0 \<or> f = Finite 1
      | JStr s \<Rightarrow> s = u ''0'' \<or> s = u ''1'' \<or> map ascii_lower s \<in> set bool_words
      | _ \<Rightarrow> False)"

text \<open>The fields a create request is read for, and a payload without its other keys.\<close>

definition known_fields :: "pystr list" where
  "known_fields = [u ''title'', u ''description'', u ''is_completed'']"

definition known_only :: "payload \<Rightarrow> payload" where
  "known_only p = filter (\<lambda>kv. fst kv \<in> set known_fields) p"

section \<open>Facts about validation\<close>

lemma TaskCreate_validate_Inr_iff:
  "TaskCreate_validate pre p = Inr v \<longleftrightarrow>
     validate_title (map_of p (u ''title'')) = Inr (title v) \<and>
     validate_description (map_of p (u ''description'')) = Inr (description v) \<and>
     validate_is_completed (map_of p (u ''is_completed'')) = Inr (is_completed v)"
  by (cases v) (auto simp: TaskCreate_validate_def Let_def split: sum.splits)

lemma TaskCreate_validate_Inl:
  "TaskCreate_validate pre p = Inl errs \<Longrightarrow>
     errs = field_errors (pre @ [''title'']) (echo p (u ''title''))
              (validate_title (map_of p (u ''title'')))
          @ field_errors (pre @ [''description'']) (echo p (u ''description''))
              (validate_description (map_of p (u ''description'')))
          @ field_errors (pre @ [''is_completed'']) (echo p (u ''is_completed''))
              (validate_is_completed (map_of p (u ''is_completed'')))"
  by (auto simp: TaskCreate_validate_def Let_def split: sum.splits)

lemma validate_str_bound:
  "validate_str (Some n) x = Inr s \<Longrightarrow> x = JStr s \<and> utf8_encodable s \<and> length s \<le> n"
  by (cases x) (auto split: if_splits)

lemma validate_title_bound:
  "validate_title x = Inr s \<Longrightarrow> utf8_encodable s \<and> length s \<le> max_length"
  by (auto simp: validate_title_def split: option.splits dest: validate_str_bound)

lemma TaskCreate_validate_bound:
  "TaskCreate_validate pre p = Inr v \<Longrightarrow>
   utf8_encodable (title v) \<and> length (title v) \<le> max_length"
  by (auto simp: TaskCreate_validate_Inr_iff dest: validate_title_bound)

lemma Task_model_validate_ok:
  "utf8_encodable (title v) \<and> length (title v) \<le> max_length \<Longrightarrow>
   Task_model_validate v = Inr \<lparr>title = title v, description = description v,
                                 is_completed = is_completed v, id_db = None\<rparr>"
  by (simp add: Task_model_validate_def)

lemma renders_lookup: "renders (JObj p) \<Longrightarrow> map_of p k = Some x \<Longrightarrow> renders x"
proof -
  assume r: "renders (JObj p)" and "map_of p k = Some x"
  then have "(k, x) \<in> set p" by (rule_tac map_of_SomeD)
  with r show "renders x" by (force simp: list_all_iff)
qed

lemma renders_echo: "renders (JObj p) \<Longrightarrow> renders (echo p k)"
  using renders_lookup [of p k] by (cases "map_of p k") (simp_all add: echo_def del: renders.simps)

lemma field_errors_render:
  "renders x \<Longrightarrow> list_all (\<lambda>e. renders (input e)) (field_errors l x r)"
  by (cases r) (simp_all add: field_errors_def error_at_def)

lemma errors_render:
  assumes "TaskCreate_validate pre p = Inl errs" and "renders (JObj p)"
  shows "detail_renders (Errors errs)"
  using TaskCreate_validate_Inl [OF assms(1)] renders_echo [OF assms(2)]
  by (simp add: field_errors_render)

lemma map_of_known_only:
  "k \<in> set known_fields \<Longrightarrow> map_of (known_only p) k = map_of p k"
  unfolding known_only_def by (induction p) auto

lemma field_errors_present:
  "map_of p k = Some x \<Longrightarrow> field_errors l (echo p k) r = field_errors l x r"
  by (simp add: echo_def)

lemma field_errors_description_absent:
  "field_errors l x (validate_description None) = []"
  by (simp add: field_errors_def validate_description_def)

lemma field_errors_is_completed_absent:
  "field_errors l x (validate_is_completed None) = []"
  by (simp add: field_errors_def validate_is_completed_def)

lemma field_errors_echo_known:
  assumes "k \<in> set known_fields"
      and "map_of p k = None \<longrightarrow>
             field_errors l (JObj p) (f None) = [] \<and>
             field_errors l (JObj (known_only p)) (f None) = []"
  shows "field_errors l (echo (known_only p) k) (f (map_of (known_only p) k)) =
         field_errors l (echo p k) (f (map_of p k))"
  using assms by (cases "map_of p k") (simp_all add: map_of_known_only echo_def)

lemma TaskCreate_validate_known_only:
  assumes "map_of p (u ''title'') \<noteq> None"
  shows "TaskCreate_validate pre (known_only p) = TaskCreate_validate pre p"
proof -
  have k: "u ''title'' \<in> set known_fields" "u ''description'' \<in> set known_fields"
    "u ''is_completed'' \<in> set known_fields"
    by (simp_all add: known_fields_def)
  have t: "field_errors (pre @ [''title'']) (echo (known_only p) (u ''title''))
             (validate_title (map_of (known_only p) (u ''title''))) =
           field_errors (pre @ [''title'']) (echo p (u ''title''))
             (validate_title (map_of p (u ''title'')))"
    using assms by (intro field_errors_echo_known k) auto
  have d: "field_errors (pre @ [''description'']) (echo (known_only p) (u ''description''))
             (validate_description (map_of (known_only p) (u ''description''))) =
           field_errors (pre @ [''description'']) (echo p (u ''description''))
             (validate_description (map_of p (u ''description'')))"
    by (intro field_errors_echo_known k) (simp add: field_errors_description_absent)
  have c: "field_errors (pre @ [''is_completed'']) (echo (known_only p) (u ''is_completed''))
             (validate_is_completed (map_of (known_only p) (u ''is_completed''))) =
           field_errors (pre @ [''is_completed'']) (echo p (u ''is_completed''))
             (validate_is_completed (map_of p (u ''is_completed'')))"
    by (intro field_errors_echo_known k) (simp add: field_errors_is_completed_absent)
  show ?thesis
    unfolding TaskCreate_validate_def Let_def t d c
    by (simp add: map_of_known_only k)
qed

lemma TaskCreate_validate_known_only_Inr:
  "TaskCreate_validate pre (known_only p) = Inr v \<longleftrightarrow> TaskCreate_validate pre p = Inr v"
  by (simp add: TaskCreate_validate_Inr_iff map_of_known_only known_fields_def)

section \<open>Facts about stored rows and histories\<close>

lemma row_ok_mono: "row_ok n r \<Longrightarrow> n \<le> m \<Longrightarrow> row_ok m r"
  by (auto simp: row_ok_def split: option.splits)

lemma row_ok_read:
  "row_ok n r \<Longrightarrow> \<exists>t. TaskRead_validate r = Inr t \<and> 0 < id_out t \<and> id_out t \<le> n"
  by (auto simp: row_ok_def TaskRead_validate_def split: option.splits)

lemma rows_ok_read:
  "list_all (row_ok n) rs \<Longrightarrow>
   \<exists>ts. TaskRead_validate_list rs = Inr ts \<and> (\<forall>t \<in> set ts. 0 < id_out t \<and> id_out t \<le> n)"
proof (induction rs)
  case Nil
  then show ?case by simp
next
  case (Cons r rs)
  then obtain ts where ts: "TaskRead_validate_list rs = Inr ts"
    "\<forall>t \<in> set ts. 0 < id_out t \<and> id_out t \<le> n" by auto
  from Cons.prems obtain t where t: "TaskRead_validate r = Inr t" "0 < id_out t" "id_out t \<le> n"
    using row_ok_read [of n r] by auto
  from ts t show ?case by simp
qed

lemma TaskRead_validate_list_snoc:
  "TaskRead_validate_list rs = Inr ts \<Longrightarrow> TaskRead_validate r = Inr t \<Longrightarrow>
   TaskRead_validate_list (rs @ [r]) = Inr (ts @ [t])"
  by (induction rs arbitrary: ts) (auto split: sum.splits)

lemma find_in_set: "find P xs = Some x \<Longrightarrow> x \<in> set xs"
  by (induction xs) (auto split: if_splits)

lemma find_fresh:
  "list_all (row_ok n) rs \<Longrightarrow> id_db t = Some (n + 1) \<Longrightarrow>
   find (\<lambda>r. id_db r = Some (n + 1)) (rs @ [t]) = Some t"
  by (induction rs) (auto simp: row_ok_def split: option.splits)

lemma create_task_stores:
  assumes ok: "database_ok d"
      and v: "TaskCreate_validate [''body''] p = Inr v"
      and e: "nth_outcome env 0 = Done" "nth_outcome env 1 = Done"
  shows "serve (POST_tasks p) env d =
           (\<lparr>status_code = 201, body = OneTask (as_read v (last_id d + 1))\<rparr>, [],
            \<lparr>rows = rows d @ [\<lparr>title = title v, description = description v,
                               is_completed = is_completed v, id_db = Some (last_id d + 1)\<rparr>],
             last_id = last_id d + 1\<rparr>)"
proof -
  let ?t = "\<lparr>title = title v, description = description v,
             is_completed = is_completed v, id_db = Some (last_id d + 1)\<rparr>"
  have b: "utf8_encodable (title v) \<and> length (title v) \<le> max_length"
    using v by (rule TaskCreate_validate_bound)
  have f: "find (\<lambda>r. id_db r = Some (last_id d + 1)) (rows d @ [?t]) = Some ?t"
    using ok by (intro find_fresh) (simp_all add: database_ok_def)
  have r: "TaskRead_validate ?t = Inr (as_read v (last_id d + 1))"
    using b by (simp add: TaskRead_validate_def as_read_def)
  show ?thesis
    using v e f r
    by (simp add: create_task_def Task_model_validate_ok [OF b] session_commit_def
        session_refresh_def Let_def)
qed

lemma database_ok_insert:
  assumes "database_ok d" and "utf8_encodable s \<and> length s \<le> max_length"
  shows "database_ok \<lparr>rows = rows d @ [\<lparr>title = s, description = ds, is_completed = b,
                                         id_db = Some (last_id d + 1)\<rparr>],
                      last_id = last_id d + 1\<rparr>"
proof -
  have "list_all (row_ok (last_id d + 1)) (rows d)"
    using assms(1) unfolding database_ok_def list_all_iff
    by (auto intro: row_ok_mono)
  then show ?thesis
    using assms by (simp add: database_ok_def row_ok_def)
qed

lemma database_ok_initial: "database_ok create_db_and_tables"
  by (simp add: database_ok_def create_db_and_tables_def)

lemma JSONResponse_ids: "ids_of (body (JSONResponse code det)) = []"
  by (simp add: JSONResponse_def server_error_def)

lemma serve_invariant:
  assumes "database_ok d" and "serve rq env d = (r, out, d')"
  shows "database_ok d' \<and> last_id d \<le> last_id d' \<and>
         (\<forall>i \<in> set (ids_of (body r)). 0 < i \<and> i \<le> last_id d')"
proof (cases rq)
  case GET_health
  with assms show ?thesis by auto
next
  case GET_tasks
  from assms(1) obtain ts where "TaskRead_validate_list (rows d) = Inr ts"
    "\<forall>t \<in> set ts. 0 < id_out t \<and> id_out t \<le> last_id d"
    using rows_ok_read [of "last_id d" "rows d"] by (auto simp: database_ok_def)
  with assms GET_tasks show ?thesis
    by (auto simp: read_tasks_def session_exec_select_def server_error_def
        split: outcome.splits)
next
  case (POST_tasks p)
  show ?thesis
  proof (cases "TaskCreate_validate [''body''] p")
    case (Inl errs)
    with assms POST_tasks show ?thesis by (auto simp: JSONResponse_ids)
  next
    case (Inr v)
    have b: "utf8_encodable (title v) \<and> length (title v) \<le> max_length"
      using Inr by (rule TaskCreate_validate_bound)
    let ?d1 = "\<lparr>rows = rows d @ [\<lparr>title = title v, description = description v,
                   is_completed = is_completed v, id_db = Some (last_id d + 1)\<rparr>],
                last_id = last_id d + 1\<rparr>"
    have ok1: "database_ok ?d1"
      using assms(1) b by (rule database_ok_insert)
    have found: "\<And>t. find (\<lambda>r. id_db r = Some (last_id d + 1)) (rows ?d1) = Some t \<Longrightarrow>
                   \<exists>x. TaskRead_validate t = Inr x \<and> 0 < id_out x \<and> id_out x \<le> last_id d + 1"
    proof -
      fix t assume "find (\<lambda>r. id_db r = Some (last_id d + 1)) (rows ?d1) = Some t"
      then have "t \<in> set (rows ?d1)"
        by (rule find_in_set)
      with ok1 have "row_ok (last_id d + 1) t"
        by (auto simp: database_ok_def list_all_iff)
      then show "\<exists>x. TaskRead_validate t = Inr x \<and> 0 < id_out x \<and> id_out x \<le> last_id d + 1"
        by (rule row_ok_read)
    qed
    show ?thesis
    proof (cases "nth_outcome env 0")
      case (Raises e)
      with assms POST_tasks Inr show ?thesis
        by (auto simp: create_task_def Task_model_validate_ok [OF b] session_commit_def
            http_exception_handler_def JSONResponse_ids)
    next
      case Done
      show ?thesis
      proof (cases "session_refresh (last_id d + 1) (nth_outcome env 1) ?d1")
        case (Inl e)
        with assms POST_tasks Inr Done ok1 show ?thesis
          by (auto simp: create_task_def Task_model_validate_ok [OF b] session_commit_def
              http_exception_handler_def Let_def JSONResponse_ids)
      next
        case r: (Inr t)
        then have "find (\<lambda>r. id_db r = Some (last_id d + 1)) (rows ?d1) = Some t"
          by (auto simp: session_refresh_def split: outcome.splits option.splits)
        from found [OF this] obtain x where
          "TaskRead_validate t = Inr x" "0 < id_out x" "id_out x \<le> last_id d + 1" by blast
        with assms POST_tasks Inr Done ok1 r show ?thesis
          by (auto simp: create_task_def Task_model_validate_ok [OF b] session_commit_def Let_def)
      qed
    qed
  qed
qed

lemma run_invariant:
  "database_ok d \<Longrightarrow> run h d = (rs, d') \<Longrightarrow>
   database_ok d' \<and> last_id d \<le> last_id d' \<and>
   (\<forall>r \<in> set rs. \<forall>i \<in> set (ids_of (body r)). 0 < i \<and> i \<le> last_id d')"
proof (induction h arbitrary: d rs d')
  case Nil
  then show ?case by simp
next
  case (Cons a h)
  obtain rq env where a: "a = (rq, env)" by (cases a)
  obtain r out d1 where s: "serve rq env d = (r, out, d1)" by (cases "serve rq env d")
  obtain rs1 d2 where t: "run h d1 = (rs1, d2)" by (cases "run h d1")
  from Cons.prems(2) a s t have eq: "rs = r # rs1" "d' = d2" by auto
  from serve_invariant [OF Cons.prems(1) s]
  have i1: "database_ok d1" "last_id d \<le> last_id d1"
    "\<forall>i \<in> set (ids_of (body r)). 0 < i \<and> i \<le> last_id d1" by auto
  from Cons.IH [OF i1(1) t]
  have i2: "database_ok d2" "last_id d1 \<le> last_id d2"
    "\<forall>r \<in> set rs1. \<forall>i \<in> set (ids_of (body r)). 0 < i \<and> i \<le> last_id d2" by auto
  from i1 i2 eq show ?case by fastforce
qed

section \<open>The health endpoint\<close>

text \<open>
  C8. Every request to the health endpoint is answered with status 200 and exactly the
  payload \<open>{"status": "ok", "message": "API is running!"}\<close>, whatever the rows of the
  database and whatever the database would answer to a statement; nothing is printed
  and the database is left as it was.
\<close>

theorem health_check_fixed:
  "serve GET_health env d =
     (\<lparr>status_code = 200,
       body = Dict [(''status'', ''ok''), (''message'', ''API is running!'')]\<rparr>, [], d)"
  by (simp add: health_check_def)

section \<open>Listing\<close>

text \<open>
  C9. A list request against a database with no rows, the database answering the
  query, is answered with status 200 and the empty sequence.
\<close>

theorem read_tasks_empty:
  assumes "rows d = []" and "nth_outcome env 0 = Done"
  shows "serve GET_tasks env d = (\<lparr>status_code = 200, body = TaskList []\<rparr>, [], d)"
  using assms by (simp add: read_tasks_def session_exec_select_def)

theorem read_tasks_empty_witness:
  "rows create_db_and_tables = [] \<and> nth_outcome [] 0 = Done \<and>
   serve GET_tasks [] create_db_and_tables =
     (\<lparr>status_code = 200, body = TaskList []\<rparr>, [], create_db_and_tables)"
  using read_tasks_empty [of create_db_and_tables "[]"]
  by (simp add: create_db_and_tables_def nth_outcome_def)

text \<open>
  C6. When the query of a list request raises, for whatever cause \<open>e\<close>, the client
  receives status 500 with the fixed text \<open>Internal Server Error\<close>, in which \<open>e\<close> does
  not occur. \<open>read_tasks\<close> does not catch the exception; the answer is the one the
  server gives for an exception that leaves a handler.
\<close>

theorem read_tasks_failure:
  assumes "nth_outcome env 0 = Raises e"
  shows "serve GET_tasks env d =
           (\<lparr>status_code = 500, body = PlainText ''Internal Server Error''\<rparr>, [], d)"
  using assms by (simp add: read_tasks_def session_exec_select_def server_error_def)

theorem read_tasks_failure_witness:
  "nth_outcome [Raises ''connection refused''] 0 = Raises ''connection refused'' \<and>
   serve GET_tasks [Raises ''connection refused''] create_db_and_tables =
     (\<lparr>status_code = 500, body = PlainText ''Internal Server Error''\<rparr>, [],
      create_db_and_tables)"
  using read_tasks_failure [of "[Raises ''connection refused'']" "''connection refused''"
      create_db_and_tables]
  by (simp add: nth_outcome_def)

section \<open>Creation: the error paths\<close>

text \<open>
  C5. When a create request passes validation and the INSERT raises, for whatever
  cause \<open>e\<close>, the response is status 500 with the fixed detail
  \<open>Error interno del servidor al procesar la solicitud.\<close>, the same for every \<open>e\<close>; the
  cause appears only in the line printed by the server; and the database is left as
  it was whatever the outcomes of later statements would have been, so the INSERT is
  not sent a second time.
\<close>

theorem create_task_persistence_failure:
  assumes "TaskCreate_validate [''body''] p = Inr v"
      and "nth_outcome env 0 = Raises e"
  shows "serve (POST_tasks p) env d =
           (\<lparr>status_code = 500,
             body = Detail (Message ''Error interno del servidor al procesar la solicitud.'')\<rparr>,
            [''Error al crear tarea: '' @ e], d)"
proof -
  have "utf8_encodable (title v) \<and> length (title v) \<le> max_length"
    using assms(1) by (rule TaskCreate_validate_bound)
  then show ?thesis
    using assms
    by (simp add: create_task_def Task_model_validate_ok session_commit_def
        http_exception_handler_def JSONResponse_def internal_detail_def)
qed

theorem create_task_persistence_failure_witness:
  "TaskCreate_validate [''body''] [(u ''title'', JStr (u ''a''))] =
     Inr \<lparr>title = u ''a'', description = None, is_completed = False\<rparr> \<and>
   nth_outcome [Raises ''connection refused'', Done, Done] 0 = Raises ''connection refused'' \<and>
   serve (POST_tasks [(u ''title'', JStr (u ''a''))])
       [Raises ''connection refused'', Done, Done] create_db_and_tables =
     (\<lparr>status_code = 500,
       body = Detail (Message ''Error interno del servidor al procesar la solicitud.'')\<rparr>,
      [''Error al crear tarea: connection refused''], create_db_and_tables)"
proof -
  have v: "TaskCreate_validate [''body''] [(u ''title'', JStr (u ''a''))] =
             Inr \<lparr>title = u ''a'', description = None, is_completed = False\<rparr>"
    by (simp add: TaskCreate_validate_def validate_title_def validate_description_def
        validate_is_completed_def u_def max_length_def utf8_encodable_def surrogate_def)
  have e: "nth_outcome [Raises ''connection refused'', Done, Done] 0 =
             Raises ''connection refused''"
    by (simp add: nth_outcome_def)
  show ?thesis
    using v e create_task_persistence_failure [OF v e, of create_db_and_tables]
    by simp
qed

text \<open>
  C4. A create request whose payload has no \<open>title\<close> fails validation with the entry of
  location \<open>["body", "title"]\<close>, type \<open>missing\<close> and message \<open>Field required\<close>, which echoes
  the whole payload. The payload \<open>{"foo": 1e400}\<close> has no \<open>title\<close> and holds an infinite
  number: the 422 response cannot be rendered, and the request is answered with
  status 500 and the text \<open>Internal Server Error\<close> instead of status 422.
\<close>

theorem missing_title_unrendered:
  "map_of [(u ''foo'', JFloat Infinity)] (u ''title'') = None \<and>
   TaskCreate_validate [''body''] [(u ''foo'', JFloat Infinity)] =
     Inl [\<lparr>err_type = ''missing'', loc = [''body'', ''title''], msg = ''Field required'',
           input = JObj [(u ''foo'', JFloat Infinity)]\<rparr>] \<and>
   serve (POST_tasks [(u ''foo'', JFloat Infinity)]) [] create_db_and_tables =
     (\<lparr>status_code = 500, body = PlainText ''Internal Server Error''\<rparr>, [],
      create_db_and_tables)"
  by (simp add: TaskCreate_validate_def validate_title_def validate_description_def
      validate_is_completed_def field_errors_def error_at_def echo_def u_def
      JSONResponse_def server_error_def)

text \<open>
  When the payload can be rendered, the request without \<open>title\<close> is answered with 422
  and the entry, and nothing is stored.
\<close>

lemma missing_title_rendered:
  assumes "map_of p (u ''title'') = None" and "renders (JObj p)"
  shows "\<exists>errs. serve (POST_tasks p) env d =
                  (\<lparr>status_code = 422, body = Detail (Errors errs)\<rparr>, [], d) \<and>
                \<lparr>err_type = ''missing'', loc = [''body'', ''title''],
                  msg = ''Field required'', input = JObj p\<rparr> \<in> set errs"
proof -
  have t: "validate_title (map_of p (u ''title'')) = Inl Missing"
    using assms(1) by (simp add: validate_title_def)
  then obtain errs where e: "TaskCreate_validate [''body''] p = Inl errs"
    by (cases "TaskCreate_validate [''body''] p") (auto simp: TaskCreate_validate_Inr_iff)
  from TaskCreate_validate_Inl [OF e] t assms(1)
  have "\<lparr>err_type = ''missing'', loc = [''body'', ''title''], msg = ''Field required'',
          input = JObj p\<rparr> \<in> set errs"
    by (simp add: field_errors_def error_at_def echo_def)
  moreover have "detail_renders (Errors errs)"
    using e assms(2) by (rule errors_render)
  ultimately show ?thesis
    using e by (simp add: JSONResponse_def)
qed

section \<open>Creation: the stored task\<close>

text \<open>
  C7. When a create request whose payload has no \<open>is_completed\<close> passes validation and
  the INSERT completes, exactly one row is added to the table, with the title and the
  description of the validated input and with \<open>is_completed\<close> false.
\<close>

theorem is_completed_default:
  assumes "map_of p (u ''is_completed'') = None"
      and "TaskCreate_validate [''body''] p = Inr v"
      and "nth_outcome env 0 = Done"
  shows "\<exists>t. rows (snd (snd (serve (POST_tasks p) env d))) = rows d @ [t] \<and>
              is_completed t = False \<and> title t = title v \<and> description t = description v"
proof -
  have b: "utf8_encodable (title v) \<and> length (title v) \<le> max_length"
    using assms(2) by (rule TaskCreate_validate_bound)
  have f: "is_completed v = False"
    using assms(1,2) by (simp add: TaskCreate_validate_Inr_iff validate_is_completed_def)
  show ?thesis
    using assms(2,3) f
    by (auto simp: create_task_def Task_model_validate_ok [OF b] session_commit_def Let_def
        split: sum.splits prod.splits)
qed

theorem is_completed_default_witness:
  "map_of [(u ''title'', JStr (u ''a''))] (u ''is_completed'') = None \<and>
   TaskCreate_validate [''body''] [(u ''title'', JStr (u ''a''))] =
     Inr \<lparr>title = u ''a'', description = None, is_completed = False\<rparr> \<and>
   nth_outcome [] 0 = Done \<and>
   (\<exists>t. rows (snd (snd (serve (POST_tasks [(u ''title'', JStr (u ''a''))]) []
                           create_db_and_tables))) = rows create_db_and_tables @ [t] \<and>
        is_completed t = False \<and> title t = u ''a'' \<and> description t = None)"
proof -
  have a: "map_of [(u ''title'', JStr (u ''a''))] (u ''is_completed'') = None"
    by (simp add: u_def)
  have v: "TaskCreate_validate [''body''] [(u ''title'', JStr (u ''a''))] =
             Inr \<lparr>title = u ''a'', description = None, is_completed = False\<rparr>"
    by (simp add: TaskCreate_validate_def validate_title_def validate_description_def
        validate_is_completed_def u_def max_length_def utf8_encodable_def surrogate_def)
  have e: "nth_outcome [] 0 = Done"
    by (simp add: nth_outcome_def)
  show ?thesis
    using a v e is_completed_default [OF a v e, of create_db_and_tables] by simp
qed

text \<open>
  C10. Keys of the payload other than \<open>title\<close>, \<open>description\<close> and \<open>is_completed\<close> do not
  decide whether a create request is accepted nor what is stored: the payload passes
  validation, with the same validated input, exactly when the payload without those
  keys does, and the database is left the same by both. Whenever \<open>title\<close> is present,
  and so whenever the request is accepted, the whole answer is the same as well.
\<close>

theorem unknown_fields_ignored:
  "(TaskCreate_validate [''body''] p = Inr v
      \<longleftrightarrow> TaskCreate_validate [''body''] (known_only p) = Inr v)
   \<and> snd (snd (serve (POST_tasks p) env d)) = snd (snd (serve (POST_tasks (known_only p)) env d))
   \<and> (map_of p (u ''title'') \<noteq> None \<longrightarrow>
        serve (POST_tasks p) env d = serve (POST_tasks (known_only p)) env d)"
proof (intro conjI impI)
  show "TaskCreate_validate [''body''] p = Inr v
          \<longleftrightarrow> TaskCreate_validate [''body''] (known_only p) = Inr v"
    by (simp add: TaskCreate_validate_known_only_Inr)
  show "snd (snd (serve (POST_tasks p) env d)) =
        snd (snd (serve (POST_tasks (known_only p)) env d))"
  proof (cases "TaskCreate_validate [''body''] p")
    case (Inl errs)
    then obtain errs' where "TaskCreate_validate [''body''] (known_only p) = Inl errs'"
      by (cases "TaskCreate_validate [''body''] (known_only p)")
        (simp_all add: TaskCreate_validate_known_only_Inr)
    with Inl show ?thesis by simp
  next
    case (Inr w)
    then have "TaskCreate_validate [''body''] (known_only p) = Inr w"
      by (simp add: TaskCreate_validate_known_only_Inr)
    with Inr show ?thesis by simp
  qed
next
  assume "map_of p (u ''title'') \<noteq> None"
  then have "TaskCreate_validate [''body''] (known_only p) = TaskCreate_validate [''body''] p"
    by (rule TaskCreate_validate_known_only)
  then show "serve (POST_tasks p) env d = serve (POST_tasks (known_only p)) env d"
    by simp
qed

theorem unknown_fields_ignored_witness:
  "map_of [(u ''title'', JStr (u ''a'')), (u ''foo'', JFloat Infinity)] (u ''title'') \<noteq> None \<and>
   known_only [(u ''title'', JStr (u ''a'')), (u ''foo'', JFloat Infinity)] =
     [(u ''title'', JStr (u ''a''))] \<and>
   serve (POST_tasks [(u ''title'', JStr (u ''a'')), (u ''foo'', JFloat Infinity)]) []
       create_db_and_tables =
     serve (POST_tasks [(u ''title'', JStr (u ''a''))]) [] create_db_and_tables"
proof -
  let ?p = "[(u ''title'', JStr (u ''a'')), (u ''foo'', JFloat Infinity)]"
  have t: "map_of ?p (u ''title'') \<noteq> None"
    by simp
  have k: "known_only ?p = [(u ''title'', JStr (u ''a''))]"
    by (simp add: known_only_def known_fields_def u_def)
  show ?thesis
    using t k unknown_fields_ignored [where p = ?p and env = "[]" and d = create_db_and_tables]
    by simp
qed

section \<open>The validation contract\<close>

lemma validate_bool_reads:
  "(\<exists>b. validate_bool x = Inr b) \<longleftrightarrow> reads_as_bool x"
proof (cases x)
  case (JStr s)
  have lit: "map ascii_lower (u ''f'') = u ''f''" "map ascii_lower (u ''n'') = u ''n''"
    "map ascii_lower (u ''no'') = u ''no''" "map ascii_lower (u ''off'') = u ''off''"
    "map ascii_lower (u ''false'') = u ''false''" "map ascii_lower (u ''t'') = u ''t''"
    "map ascii_lower (u ''y'') = u ''y''" "map ascii_lower (u ''on'') = u ''on''"
    "map ascii_lower (u ''yes'') = u ''yes''" "map ascii_lower (u ''true'') = u ''true''"
    by (simp_all add: u_def ascii_lower_def)
  show ?thesis
    unfolding JStr
    by (auto simp add: reads_as_bool_def str_as_bool_def eq_ignore_ascii_case_def lit
        bool_words_def)
next
  case (JFloat f)
  then show ?thesis
    by (cases f) (auto simp: reads_as_bool_def int_as_bool_def)
next
  case (JInt i)
  then show ?thesis
    by (auto simp: reads_as_bool_def int_as_bool_def)
qed (auto simp: reads_as_bool_def)

text \<open>
  C2, as stated, fails: the payload \<open>{"title": "a", "is_completed": 1}\<close> passes validation
  (the integer 1 is read as \<open>true\<close>), although its \<open>is_completed\<close> is present and is not a
  boolean.
\<close>

theorem validation_contract_counterexample:
  "TaskCreate_validate [''body''] [(u ''title'', JStr (u ''a'')), (u ''is_completed'', JInt 1)] =
     Inr \<lparr>title = u ''a'', description = None, is_completed = True\<rparr> \<and>
   \<not> spec_valid [(u ''title'', JStr (u ''a'')), (u ''is_completed'', JInt 1)]"
  by (simp add: TaskCreate_validate_def validate_title_def validate_description_def
      validate_is_completed_def int_as_bool_def spec_valid_def u_def max_length_def
      utf8_encodable_def surrogate_def)

text \<open>
  C2, amended. For every payload whose \<open>title\<close> is not the empty string, validation
  succeeds if and only if \<open>title\<close> is present, a string, non-empty, of at most 255
  characters and without a lone surrogate; \<open>description\<close>, if present, is a string or
  null; and \<open>is_completed\<close>, if present, is a boolean or one of the values read as a
  boolean (the integers and floats 0 and 1, the strings \<open>0\<close> and \<open>1\<close>, and
  \<open>f n no off false t y on yes true\<close> in any case).
\<close>

theorem validation_contract:
  assumes "map_of p (u ''title'') \<noteq> Some (JStr [])"
  shows "(\<exists>v. TaskCreate_validate [''body''] p = Inr v) \<longleftrightarrow>
           (\<exists>s. map_of p (u ''title'') = Some (JStr s) \<and> s \<noteq> [] \<and> length s \<le> 255
                \<and> utf8_encodable s)
         \<and> (map_of p (u ''description'') = None \<or> map_of p (u ''description'') = Some JNull
              \<or> (\<exists>s. map_of p (u ''description'') = Some (JStr s)))
         \<and> (map_of p (u ''is_completed'') = None
              \<or> (\<exists>x. map_of p (u ''is_completed'') = Some x \<and> reads_as_bool x))"
proof -
  have t: "(\<exists>s. validate_title (map_of p (u ''title'')) = Inr s) \<longleftrightarrow>
           (\<exists>s. map_of p (u ''title'') = Some (JStr s) \<and> s \<noteq> [] \<and> length s \<le> 255
                \<and> utf8_encodable s)"
  proof (cases "map_of p (u ''title'')")
    case None
    then show ?thesis by (simp add: validate_title_def)
  next
    case (Some x)
    with assms show ?thesis
      by (cases x) (auto simp: validate_title_def max_length_def)
  qed
  have d: "(\<exists>s. validate_description (map_of p (u ''description'')) = Inr s) \<longleftrightarrow>
           (map_of p (u ''description'') = None \<or> map_of p (u ''description'') = Some JNull
              \<or> (\<exists>s. map_of p (u ''description'') = Some (JStr s)))"
  proof (cases "map_of p (u ''description'')")
    case None
    then show ?thesis by (simp add: validate_description_def)
  next
    case (Some x)
    then show ?thesis
      by (cases x) (auto simp: validate_description_def)
  qed
  have c: "(\<exists>b. validate_is_completed (map_of p (u ''is_completed'')) = Inr b) \<longleftrightarrow>
           (map_of p (u ''is_completed'') = None
              \<or> (\<exists>x. map_of p (u ''is_completed'') = Some x \<and> reads_as_bool x))"
    by (cases "map_of p (u ''is_completed'')")
      (auto simp: validate_is_completed_def validate_bool_reads)
  have "(\<exists>v. TaskCreate_validate [''body''] p = Inr v) \<longleftrightarrow>
        (\<exists>s. validate_title (map_of p (u ''title'')) = Inr s) \<and>
        (\<exists>s. validate_description (map_of p (u ''description'')) = Inr s) \<and>
        (\<exists>b. validate_is_completed (map_of p (u ''is_completed'')) = Inr b)"
  proof
    assume "\<exists>v. TaskCreate_validate [''body''] p = Inr v"
    then show "(\<exists>s. validate_title (map_of p (u ''title'')) = Inr s) \<and>
        (\<exists>s. validate_description (map_of p (u ''description'')) = Inr s) \<and>
        (\<exists>b. validate_is_completed (map_of p (u ''is_completed'')) = Inr b)"
      by (auto simp: TaskCreate_validate_Inr_iff)
  next
    assume "(\<exists>s. validate_title (map_of p (u ''title'')) = Inr s) \<and>
        (\<exists>s. validate_description (map_of p (u ''description'')) = Inr s) \<and>
        (\<exists>b. validate_is_completed (map_of p (u ''is_completed'')) = Inr b)"
    then obtain s ds b where "validate_title (map_of p (u ''title'')) = Inr s"
      "validate_description (map_of p (u ''description'')) = Inr ds"
      "validate_is_completed (map_of p (u ''is_completed'')) = Inr b" by blast
    then have "TaskCreate_validate [''body''] p =
                 Inr \<lparr>title = s, description = ds, is_completed = b\<rparr>"
      by (simp add: TaskCreate_validate_Inr_iff)
    then show "\<exists>v. TaskCreate_validate [''body''] p = Inr v" by blast
  qed
  with t d c show ?thesis by simp
qed

theorem validation_contract_witness:
  "map_of [(u ''title'', JStr (u ''a'')), (u ''description'', JNull),
           (u ''is_completed'', JStr (u ''Yes''))] (u ''title'') \<noteq> Some (JStr []) \<and>
   (\<exists>v. TaskCreate_validate [''body'']
          [(u ''title'', JStr (u ''a'')), (u ''description'', JNull),
           (u ''is_completed'', JStr (u ''Yes''))] = Inr v)"
proof -
  let ?p = "[(u ''title'', JStr (u ''a'')), (u ''description'', JNull),
             (u ''is_completed'', JStr (u ''Yes''))]"
  have h: "map_of ?p (u ''title'') \<noteq> Some (JStr [])"
    by (simp add: u_def)
  have t: "\<exists>s. map_of ?p (u ''title'') = Some (JStr s) \<and> s \<noteq> [] \<and> length s \<le> 255
               \<and> utf8_encodable s"
    by (simp add: u_def utf8_encodable_def surrogate_def)
  have d: "map_of ?p (u ''description'') = Some JNull"
    by (simp add: u_def)
  have c: "\<exists>x. map_of ?p (u ''is_completed'') = Some x \<and> reads_as_bool x"
    by (simp add: u_def reads_as_bool_def bool_words_def ascii_lower_def)
  show ?thesis
    using h t d c validation_contract [where p = ?p] by blast
qed

text \<open>
  The empty title, which the amended contract leaves open, is accepted and stored:
  the field declares \<open>max_length\<close> and no \<open>min_length\<close>.
\<close>

lemma empty_title_is_stored:
  "serve (POST_tasks [(u ''title'', JStr [])]) [] create_db_and_tables =
     (\<lparr>status_code = 201,
       body = OneTask \<lparr>title = [], description = None, is_completed = False, id_out = 1\<rparr>\<rparr>,
      [],
      \<lparr>rows = [\<lparr>title = [], description = None, is_completed = False, id_db = Some 1\<rparr>],
       last_id = 1\<rparr>)"
  by (simp add: TaskCreate_validate_def validate_title_def validate_description_def
      validate_is_completed_def u_def max_length_def create_task_def Task_model_validate_def
      session_commit_def session_refresh_def nth_outcome_def create_db_and_tables_def
      TaskRead_validate_def Let_def utf8_encodable_def)

section \<open>The bound on the title\<close>




section \<open>Creation followed by listing\<close>

text \<open>
  C1, as stated, fails. A first create request stores its row and then fails to read
  it back, so it is answered with 500 and no identifier; a second create request with
  the same input is answered with 201. The listing then holds two tasks whose three
  fields equal those of the input, and neither identifier had occurred in a response
  before the second request. (Two successful creations of the same input give two
  such tasks as well.)
\<close>

theorem round_trip_counterexample:
  "run [(POST_tasks [(u ''title'', JStr (u ''a''))], [Done, Raises ''connection lost''])]
       create_db_and_tables =
     ([\<lparr>status_code = 500,
        body = Detail (Message ''Error interno del servidor al procesar la solicitud.'')\<rparr>],
      \<lparr>rows = [\<lparr>title = u ''a'', description = None, is_completed = False, id_db = Some 1\<rparr>],
       last_id = 1\<rparr>) \<and>
   serve (POST_tasks [(u ''title'', JStr (u ''a''))]) []
       \<lparr>rows = [\<lparr>title = u ''a'', description = None, is_completed = False, id_db = Some 1\<rparr>],
        last_id = 1\<rparr> =
     (\<lparr>status_code = 201,
       body = OneTask \<lparr>title = u ''a'', description = None, is_completed = False, id_out = 2\<rparr>\<rparr>,
      [],
      \<lparr>rows = [\<lparr>title = u ''a'', description = None, is_completed = False, id_db = Some 1\<rparr>,
               \<lparr>title = u ''a'', description = None, is_completed = False, id_db = Some 2\<rparr>],
       last_id = 2\<rparr>) \<and>
   serve GET_tasks []
       \<lparr>rows = [\<lparr>title = u ''a'', description = None, is_completed = False, id_db = Some 1\<rparr>,
                \<lparr>title = u ''a'', description = None, is_completed = False, id_db = Some 2\<rparr>],
        last_id = 2\<rparr> =
     (\<lparr>status_code = 200,
       body = TaskList
         [\<lparr>title = u ''a'', description = None, is_completed = False, id_out = 1\<rparr>,
          \<lparr>title = u ''a'', description = None, is_completed = False, id_out = 2\<rparr>]\<rparr>,
      [],
      \<lparr>rows = [\<lparr>title = u ''a'', description = None, is_completed = False, id_db = Some 1\<rparr>,
               \<lparr>title = u ''a'', description = None, is_completed = False, id_db = Some 2\<rparr>],
       last_id = 2\<rparr>) \<and>
   length (matching \<lparr>title = u ''a'', description = None, is_completed = False\<rparr>
     [\<lparr>title = u ''a'', description = None, is_completed = False, id_out = 1\<rparr>,
      \<lparr>title = u ''a'', description = None, is_completed = False, id_out = 2\<rparr>]) = 2"
  by (simp add: TaskCreate_validate_def validate_title_def validate_description_def
      validate_is_completed_def u_def max_length_def create_task_def Task_model_validate_def
      session_commit_def session_refresh_def nth_outcome_def create_db_and_tables_def
      TaskRead_validate_def Let_def http_exception_handler_def internal_detail_def
      read_tasks_def session_exec_select_def matching_def same_fields_def
      JSONResponse_def utf8_encodable_def surrogate_def)

text \<open>
  C1, amended. After any history of requests on the initial database, a create
  request with a valid input \<open>v\<close> whose INSERT and read-back complete is answered with
  201 and the task made of the fields of \<open>v\<close> and an identifier \<open>i\<close>; a listing then
  returns the tasks listed before followed by that one task. The identifier \<open>i\<close> is
  positive, occurs in no earlier response and belongs to no task listed before, and
  the number of listed tasks with the fields of \<open>v\<close> has grown by exactly one.
\<close>

theorem create_then_list:
  assumes h: "run h create_db_and_tables = (earlier, d)"
      and v: "TaskCreate_validate [''body''] p = Inr v"
      and e: "nth_outcome env 0 = Done" "nth_outcome env 1 = Done"
      and q: "nth_outcome env' 0 = Done"
  shows "\<exists>i old d'.
           serve (POST_tasks p) env d =
             (\<lparr>status_code = 201, body = OneTask (as_read v i)\<rparr>, [], d') \<and>
           serve GET_tasks env' d = (\<lparr>status_code = 200, body = TaskList old\<rparr>, [], d) \<and>
           serve GET_tasks env' d' =
             (\<lparr>status_code = 200, body = TaskList (old @ [as_read v i])\<rparr>, [], d') \<and>
           0 < i \<and>
           (\<forall>r \<in> set earlier. i \<notin> set (ids_of (body r))) \<and>
           (\<forall>t \<in> set old. id_out t \<noteq> i) \<and>
           length (matching v (old @ [as_read v i])) = Suc (length (matching v old))"
proof -
  from run_invariant [OF database_ok_initial h]
  have ok: "database_ok d"
    and seen: "\<forall>r \<in> set earlier. \<forall>i \<in> set (ids_of (body r)). 0 < i \<and> i \<le> last_id d"
    by auto
  let ?i = "last_id d + 1"
  let ?t = "\<lparr>title = title v, description = description v,
             is_completed = is_completed v, id_db = Some ?i\<rparr>"
  let ?d' = "\<lparr>rows = rows d @ [?t], last_id = ?i\<rparr>"
  have b: "utf8_encodable (title v) \<and> length (title v) \<le> max_length"
    using v by (rule TaskCreate_validate_bound)
  have c: "serve (POST_tasks p) env d =
             (\<lparr>status_code = 201, body = OneTask (as_read v ?i)\<rparr>, [], ?d')"
    using ok v e by (rule create_task_stores)
  from ok obtain old where old: "TaskRead_validate_list (rows d) = Inr old"
    "\<forall>t \<in> set old. 0 < id_out t \<and> id_out t \<le> last_id d"
    using rows_ok_read [of "last_id d" "rows d"] by (auto simp: database_ok_def)
  have r: "TaskRead_validate ?t = Inr (as_read v ?i)"
    using b by (simp add: TaskRead_validate_def as_read_def)
  have l0: "serve GET_tasks env' d = (\<lparr>status_code = 200, body = TaskList old\<rparr>, [], d)"
    using q old(1) by (simp add: read_tasks_def session_exec_select_def)
  have l1: "serve GET_tasks env' ?d' =
              (\<lparr>status_code = 200, body = TaskList (old @ [as_read v ?i])\<rparr>, [], ?d')"
    using q TaskRead_validate_list_snoc [OF old(1) r]
    by (simp add: read_tasks_def session_exec_select_def)
  have pos: "0 < ?i" using ok by (simp add: database_ok_def)
  have fresh: "\<forall>r \<in> set earlier. ?i \<notin> set (ids_of (body r))"
    using seen by fastforce
  have distinct: "\<forall>t \<in> set old. id_out t \<noteq> ?i"
    using old(2) by fastforce
  have m: "length (matching v (old @ [as_read v ?i])) = Suc (length (matching v old))"
    by (simp add: matching_def same_fields_def as_read_def)
  from c l0 l1 pos fresh distinct m show ?thesis by blast
qed

theorem create_then_list_witness:
  "run [(GET_health, [])] create_db_and_tables =
     ([\<lparr>status_code = 200,
        body = Dict [(''status'', ''ok''), (''message'', ''API is running!'')]\<rparr>],
      create_db_and_tables) \<and>
   TaskCreate_validate [''body''] [(u ''title'', JStr (u ''a''))] =
     Inr \<lparr>title = u ''a'', description = None, is_completed = False\<rparr> \<and>
   nth_outcome [] 0 = Done \<and> nth_outcome [] 1 = Done \<and>
   (\<exists>i old d'.
      serve (POST_tasks [(u ''title'', JStr (u ''a''))]) [] create_db_and_tables =
        (\<lparr>status_code = 201,
          body = OneTask (as_read \<lparr>title = u ''a'', description = None,
                                   is_completed = False\<rparr> i)\<rparr>, [], d') \<and>
      serve GET_tasks [] d' =
        (\<lparr>status_code = 200,
          body = TaskList (old @ [as_read \<lparr>title = u ''a'', description = None,
                                           is_completed = False\<rparr> i])\<rparr>, [], d') \<and>
      0 < i)"
proof -
  have h: "run [(GET_health, [])] create_db_and_tables =
             ([\<lparr>status_code = 200,
                body = Dict [(''status'', ''ok''), (''message'', ''API is running!'')]\<rparr>],
              create_db_and_tables)"
    by (simp add: health_check_def)
  have v: "TaskCreate_validate [''body''] [(u ''title'', JStr (u ''a''))] =
             Inr \<lparr>title = u ''a'', description = None, is_completed = False\<rparr>"
    by (simp add: TaskCreate_validate_def validate_title_def validate_description_def
        validate_is_completed_def u_def max_length_def utf8_encodable_def surrogate_def)
  have e: "nth_outcome [] 0 = Done" "nth_outcome [] 1 = Done"
    by (simp_all add: nth_outcome_def)
  show ?thesis
    using h v e create_then_list [OF h v e e(1)] by blast
qed

end
